theory Spec2Isabelle
  imports Main
begin

section \<open>Values\<close>

text \<open>
  The records the tool handles come from \<^verbatim>\<open>JSON.parse\<close> (a file written by the export
  command) or from the People API client, so they are JSON trees. An object is kept as the
  list of its entries in key order, an array as the list of its elements. A number is only
  ever tested for being zero (truthiness), so its payload is an integer here.
\<close>

datatype json =
    JNull
  | JBool bool
  | JNum int
  | JStr string
  | JArr "json list"
  | JObj "(string \<times> json) list"

type_synonym obj = "(string \<times> json) list"

text \<open>
  The errors of the program: \<open>TypeError\<close> is what the JavaScript engine throws on
  \<^verbatim>\<open>Object.keys(null)\<close>, on reading a property of \<^verbatim>\<open>null\<close> and on calling something
  that is not a function; \<open>TransportError\<close> is a rejected call of the API client;
  \<open>SyntaxError\<close> is thrown by \<^verbatim>\<open>JSON.parse\<close>; \<open>SystemError c\<close> is a file-system error whose
  \<^verbatim>\<open>code\<close> property is \<open>c\<close> (the other three carry no \<^verbatim>\<open>code\<close>).
\<close>

datatype error = TypeError | TransportError | SyntaxError | SystemError string

text \<open>JavaScript's truthiness and \<^verbatim>\<open>typeof v === "object"\<close> (true of \<^verbatim>\<open>null\<close> as well).\<close>

fun truthy :: "json \<Rightarrow> bool" where
  "truthy JNull = False"
| "truthy (JBool b) = b"
| "truthy (JNum n) = (n \<noteq> 0)"
| "truthy (JStr s) = (s \<noteq> [])"
| "truthy (JArr xs) = True"
| "truthy (JObj kvs) = True"

fun typeof_object :: "json \<Rightarrow> bool" where
  "typeof_object JNull = True"
| "typeof_object (JArr xs) = True"
| "typeof_object (JObj kvs) = True"
| "typeof_object v = False"

text \<open>\<^verbatim>\<open>delete obj[k]\<close> and \<^verbatim>\<open>obj[k] = v\<close> (an existing key keeps its place, a new one goes last).\<close>

definition deleteProp :: "string \<Rightarrow> obj \<Rightarrow> obj" where
  "deleteProp k kvs = filter (\<lambda>kv. fst kv \<noteq> k) kvs"

fun setProp :: "string \<Rightarrow> json \<Rightarrow> obj \<Rightarrow> obj" where
  "setProp k v [] = [(k, v)]"
| "setProp k v ((k', v') # kvs) =
     (if k' = k then (k, v) # kvs else (k', v') # setProp k v kvs)"

section \<open>The sanitizer: objectCleaner and processContact (contacts.js)\<close>

text \<open>
  \<^verbatim>\<open>
  function objectCleaner(obj) {
    const keys = Object.keys(obj);
    for (const key of keys) {
      if (key === "id" || key === "resourceName") { delete obj[key]; }
      if (typeof obj[key] === "object") { objectCleaner(obj[key]); }
    }
  }
  \<close>
  The function works in place; the model returns the value the object has afterwards.
  \<^verbatim>\<open>Object.keys(null)\<close> throws a TypeError, and \<^verbatim>\<open>typeof null\<close> is \<^verbatim>\<open>"object"\<close>, so a
  \<^verbatim>\<open>null\<close> that is reached throws. A deleted key reads as \<^verbatim>\<open>undefined\<close> afterwards, whose
  type is not \<^verbatim>\<open>"object"\<close>: nothing below it is visited. On a number, a boolean or a string
  the loop deletes nothing and recurses nowhere. \<open>cleanElems\<close> is the loop over the indices
  of an array, \<open>cleanFields\<close> the loop over the keys of an object.
\<close>

fun objectCleaner :: "json \<Rightarrow> error + json"
  and cleanElems :: "json list \<Rightarrow> error + json list"
  and cleanFields :: "obj \<Rightarrow> error + obj" where
  "objectCleaner JNull = Inl TypeError"
| "objectCleaner (JArr xs) =
     (case cleanElems xs of Inl e \<Rightarrow> Inl e | Inr ys \<Rightarrow> Inr (JArr ys))"
| "objectCleaner (JObj kvs) =
     (case cleanFields kvs of Inl e \<Rightarrow> Inl e | Inr kvs' \<Rightarrow> Inr (JObj kvs'))"
| "objectCleaner (JBool b) = Inr (JBool b)"
| "objectCleaner (JNum n) = Inr (JNum n)"
| "objectCleaner (JStr s) = Inr (JStr s)"
| "cleanElems [] = Inr []"
| "cleanElems (x # xs) =
     (case (if typeof_object x then objectCleaner x else Inr x) of
        Inl e \<Rightarrow> Inl e
      | Inr y \<Rightarrow> (case cleanElems xs of Inl e \<Rightarrow> Inl e | Inr ys \<Rightarrow> Inr (y # ys)))"
| "cleanFields [] = Inr []"
| "cleanFields (kv # kvs) =
     (if fst kv = ''id'' \<or> fst kv = ''resourceName'' then cleanFields kvs
      else (case (if typeof_object (snd kv) then objectCleaner (snd kv) else Inr (snd kv)) of
              Inl e \<Rightarrow> Inl e
            | Inr y \<Rightarrow> (case cleanFields kvs of
                         Inl e \<Rightarrow> Inl e
                       | Inr kvs' \<Rightarrow> Inr ((fst kv, y) # kvs'))))"

text \<open>
  Reading a property. \<open>getProp v k\<close> is \<^verbatim>\<open>v.k\<close> for a \<open>v\<close> that is not \<^verbatim>\<open>null\<close>, with
  \<open>None\<close> for \<^verbatim>\<open>undefined\<close>. It is used for the keys \<^verbatim>\<open>metadata\<close>, \<^verbatim>\<open>source\<close> and
  \<^verbatim>\<open>type\<close> only, which no array, string, number or boolean has. \<open>optChain v k\<close>
  is \<^verbatim>\<open>v?.k\<close>.
\<close>

fun getProp :: "json \<Rightarrow> string \<Rightarrow> json option" where
  "getProp (JObj kvs) k = map_of kvs k"
| "getProp v k = None"

definition optChain :: "json option \<Rightarrow> string \<Rightarrow> json option" where
  "optChain v k =
     (case v of None \<Rightarrow> None | Some JNull \<Rightarrow> None | Some w \<Rightarrow> getProp w k)"

text \<open>
  The callback of both filters, \<^verbatim>\<open>(name) => name.metadata?.source?.type === "CONTACT"\<close>:
  the first property access is not optional, so an entry that is \<^verbatim>\<open>null\<close> throws.
\<close>

definition isContactSource :: "json \<Rightarrow> error + bool" where
  "isContactSource name =
     (if name = JNull then Inl TypeError
      else Inr (optChain (optChain (getProp name ''metadata'') ''source'') ''type''
                  = Some (JStr ''CONTACT'')))"

fun filterE :: "('a \<Rightarrow> error + bool) \<Rightarrow> 'a list \<Rightarrow> error + 'a list" where
  "filterE p [] = Inr []"
| "filterE p (x # xs) =
     (case p x of
        Inl e \<Rightarrow> Inl e
      | Inr b \<Rightarrow> (case filterE p xs of
                   Inl e \<Rightarrow> Inl e
                 | Inr ys \<Rightarrow> Inr (if b then x # ys else ys)))"

text \<open>
  \<^verbatim>\<open>
  if (contactData.names) {
    contactData.names = contactData.names.filter(...);
  }
  \<close>
  for the key \<open>k\<close>. A truthy value that is not an array has no \<^verbatim>\<open>filter\<close> method, and the
  call throws a TypeError.
\<close>

definition filterField :: "string \<Rightarrow> obj \<Rightarrow> error + obj" where
  "filterField k contactData =
     (case map_of contactData k of
        None \<Rightarrow> Inr contactData
      | Some v \<Rightarrow>
          if \<not> truthy v then Inr contactData
          else (case v of
                  JArr xs \<Rightarrow>
                    (case filterE isContactSource xs of
                       Inl e \<Rightarrow> Inl e
                     | Inr ys \<Rightarrow> Inr (setProp k (JArr ys) contactData))
                | _ \<Rightarrow> Inl TypeError))"

text \<open>
  The options of \<^verbatim>\<open>processContact\<close>: \<^verbatim>\<open>options.contactGroups\<close> is an array of group
  names or \<^verbatim>\<open>undefined\<close>.
\<close>

record options =
  contactGroups :: "string list option"

definition membership :: "string \<Rightarrow> json" where
  "membership grp =
     JObj [(''contactGroupMembership'',
            JObj [(''contactGroupResourceName'', JStr (''contactGroups/'' @ grp))])]"

definition defaultMembership :: "options \<Rightarrow> json list" where
  "defaultMembership opts =
     (case contactGroups opts of
        None \<Rightarrow> [membership ''myContacts'']
      | Some groups \<Rightarrow> [membership ''myContacts''] @ map membership groups)"

text \<open>
  The five deletions at the head of \<^verbatim>\<open>processContact\<close> (\<^verbatim>\<open>metadata\<close> is deleted twice in
  the source).
\<close>

definition deleteReadOnly :: "obj \<Rightarrow> obj" where
  "deleteReadOnly contactData =
     deleteProp ''metadata''
       (deleteProp ''coverPhotos''
         (deleteProp ''photos''
           (deleteProp ''etag''
             (deleteProp ''resourceName''
               (deleteProp ''metadata'' contactData)))))"

text \<open>
  \<^verbatim>\<open>processContact(contactData, options)\<close> changes \<^verbatim>\<open>contactData\<close> in place and returns that
  same object. \<open>processContact\<close> gives the contents of the object when the call returns, or
  the error thrown; what a call that throws has already changed is not kept.
\<close>

definition processContact :: "obj \<Rightarrow> options \<Rightarrow> error + obj" where
  "processContact contactData opts =
     (case filterField ''names'' (deleteReadOnly contactData) of
        Inl e \<Rightarrow> Inl e
      | Inr c1 \<Rightarrow>
          (case filterField ''emailAddresses'' c1 of
             Inl e \<Rightarrow> Inl e
           | Inr c2 \<Rightarrow>
               cleanFields (setProp ''memberships'' (JArr (defaultMembership opts)) c2)))"

text \<open>
  The same call on a store of record objects: the caller holds a reference, the object
  behind it is overwritten, and the reference is what comes back.
\<close>

type_synonym ref = nat
type_synonym store = "ref \<Rightarrow> obj option"

definition processContact_ref :: "store \<Rightarrow> ref \<Rightarrow> options \<Rightarrow> error + (store \<times> ref)" where
  "processContact_ref st r opts =
     (case st r of
        None \<Rightarrow> Inl TypeError
      | Some contactData \<Rightarrow>
          (case processContact contactData opts of
             Inl e \<Rightarrow> Inl e
           | Inr c \<Rightarrow> Inr (st(r \<mapsto> c), r)))"

text \<open>What the claims say of a sanitized record.\<close>

fun noIdKeys :: "json \<Rightarrow> bool"
  and noIdKeysElems :: "json list \<Rightarrow> bool"
  and noIdKeysFields :: "obj \<Rightarrow> bool" where
  "noIdKeys (JArr xs) = noIdKeysElems xs"
| "noIdKeys (JObj kvs) = noIdKeysFields kvs"
| "noIdKeys JNull = True"
| "noIdKeys (JBool b) = True"
| "noIdKeys (JNum n) = True"
| "noIdKeys (JStr s) = True"
| "noIdKeysElems [] = True"
| "noIdKeysElems (x # xs) = (noIdKeys x \<and> noIdKeysElems xs)"
| "noIdKeysFields [] = True"
| "noIdKeysFields (kv # kvs) =
     (fst kv \<noteq> ''id'' \<and> fst kv \<noteq> ''resourceName'' \<and> noIdKeys (snd kv) \<and> noIdKeysFields kvs)"

section \<open>The fetchers: listContacts (contacts.js) and listContactGroups (contact-groups.js)\<close>

text \<open>
  The People API client is outside the repository: a list call is a function from the
  request to the response body \<^verbatim>\<open>res.data\<close>, or to the error the awaited call rejects with.
  A request carries \<^verbatim>\<open>pageSize\<close> and \<^verbatim>\<open>pageToken\<close> (\<open>None\<close> for \<^verbatim>\<open>null\<close> or no token at
  all); a response body carries its items (\<open>None\<close> when the field is missing) and
  \<^verbatim>\<open>nextPageToken\<close>.
\<close>

record request =
  pageSize :: nat
  pageToken :: "string option"

record page =
  items :: "json list option"
  nextPageToken :: "string option"

type_synonym api = "request \<Rightarrow> error + page"

text \<open>The loop condition \<^verbatim>\<open>while (nextPageToken)\<close>: a token that is a non-empty string.\<close>

definition truthyToken :: "string option \<Rightarrow> bool" where
  "truthyToken t = (case t of None \<Rightarrow> False | Some s \<Rightarrow> s \<noteq> [])"

text \<open>
  \<^verbatim>\<open>
  const results = [];
  let nextPageToken = null;
  do {
    const res = await people.people.connections.list({ ..., pageSize: 1000,
      pageToken: nextPageToken, ... });
    results.push(res.data.connections);
    nextPageToken = res.data.nextPageToken;
  } while (nextPageToken);
  return results.flat();
  \<close>
  Nothing bounds the number of pages, so the loop is a partial function: \<open>None\<close> is a run
  that never returns. A rejected request leaves through the \<^verbatim>\<open>await\<close> with its error.
\<close>

partial_function (option) listContacts_loop ::
  "api \<Rightarrow> json list option list \<Rightarrow> string option \<Rightarrow> (error + json list option list) option" where
  "listContacts_loop connections_list results tok =
     (case connections_list \<lparr>pageSize = 1000, pageToken = tok\<rparr> of
        Inl e \<Rightarrow> Some (Inl e)
      | Inr res \<Rightarrow>
          if truthyToken (nextPageToken res)
          then listContacts_loop connections_list (results @ [items res]) (nextPageToken res)
          else Some (Inr (results @ [items res])))"

text \<open>
  \<^verbatim>\<open>results.flat()\<close>: the elements of the pushed arrays in order; a pushed \<^verbatim>\<open>undefined\<close>
  (a response without \<^verbatim>\<open>connections\<close>) stays as one \<^verbatim>\<open>undefined\<close> entry, \<open>None\<close> here.
\<close>

fun flat :: "json list option list \<Rightarrow> json option list" where
  "flat [] = []"
| "flat (None # rs) = None # flat rs"
| "flat (Some xs # rs) = map Some xs @ flat rs"

definition listContacts :: "api \<Rightarrow> (error + json option list) option" where
  "listContacts connections_list =
     (case listContacts_loop connections_list [] None of
        None \<Rightarrow> None
      | Some (Inl e) \<Rightarrow> Some (Inl e)
      | Some (Inr results) \<Rightarrow> Some (Inr (flat results)))"

text \<open>
  \<^verbatim>\<open>
  const res = await people.contactGroups.list({ pageSize: 200 });
  return res.data;
  \<close>
\<close>

definition listContactGroups :: "api \<Rightarrow> error + page" where
  "listContactGroups contactGroups_list = contactGroups_list \<lparr>pageSize = 200, pageToken = None\<rparr>"

text \<open>
  A remote account for trying the fetchers on: it holds the items \<open>stored\<close>, serves at most
  \<^verbatim>\<open>pageSize\<close> of them per request, and its page token is the offset of the next page,
  written as that many \<^verbatim>\<open>x\<close> characters.
\<close>

definition account :: "json list \<Rightarrow> api" where
  "account stored req =
     (let offset = (case pageToken req of None \<Rightarrow> 0 | Some t \<Rightarrow> length t);
          rest = drop offset stored
      in Inr \<lparr>items = Some (take (pageSize req) rest),
              nextPageToken =
                (if pageSize req < length rest
                 then Some (replicate (offset + pageSize req) (CHR ''x''))
                 else None)\<rparr>)"

text \<open>
  \<open>serves connections_list tok ps\<close>: from the token \<open>tok\<close> on, the remote side answers with
  the pages \<open>ps\<close> one after the other, each but the last with a token that leads to the next,
  the last with no token or an empty one.
\<close>

fun serves :: "api \<Rightarrow> string option \<Rightarrow> page list \<Rightarrow> bool" where
  "serves connections_list tok [] = False"
| "serves connections_list tok [p] =
     (connections_list \<lparr>pageSize = 1000, pageToken = tok\<rparr> = Inr p \<and> \<not> truthyToken (nextPageToken p))"
| "serves connections_list tok (p # q # ps) =
     (connections_list \<lparr>pageSize = 1000, pageToken = tok\<rparr> = Inr p \<and> truthyToken (nextPageToken p)
      \<and> serves connections_list (nextPageToken p) (q # ps))"

section \<open>The batch writer: batchCreateContacts (contacts.js)\<close>

definition BATCH_SIZE :: nat where
  "BATCH_SIZE = 25"

text \<open>\<^verbatim>\<open>xs.slice(start, fin)\<close> for indices that are not negative.\<close>

definition slice :: "nat \<Rightarrow> nat \<Rightarrow> 'a list \<Rightarrow> 'a list" where
  "slice start fin xs = take (fin - start) (drop start xs)"

fun mapE :: "('a \<Rightarrow> error + 'b) \<Rightarrow> 'a list \<Rightarrow> error + 'b list" where
  "mapE f [] = Inr []"
| "mapE f (x # xs) =
     (case f x of
        Inl e \<Rightarrow> Inl e
      | Inr y \<Rightarrow> (case mapE f xs of Inl e \<Rightarrow> Inl e | Inr ys \<Rightarrow> Inr (y # ys)))"

text \<open>
  \<^verbatim>\<open>
  for (let i = 0; i < processedContacts.length; i += BATCH_SIZE) {
    const batch = processedContacts.slice(i, i + BATCH_SIZE);
    people.people
      .batchCreateContacts({ requestBody: { contacts: batch } })
      .then((res) => { results.push(res.data); })
      .catch((error) => { failed.push(batch); console.error(...); });
    // wait for 5 seconds before making the next request
    await new Promise((resolve) => setTimeout(resolve, 5000));
    progress.increment(batch.length);
  }
  progress.stop();
  return { results, failed };
  \<close>
  The request is sent and its promise is given two callbacks; the promise itself is not
  awaited. The function is suspended only in the five-second timer, and JavaScript runs the
  callback of a request that has settled only while the function is suspended. When each
  request settles is up to the network, so it is an input of the model:
  \<open>arrivals i\<close> lists, in order, the requests that settle during the wait that follows the
  sending of the batch starting at index \<open>i\<close>, each named by the start index of its batch
  and given with its outcome.

  The state holds the two arrays the function returns, \<open>results\<close> and \<open>failed\<close>, the count
  given to the progress bar, and two observations of the run: \<open>submitted\<close>, the batches sent
  so far, and \<open>pending\<close>, the requests sent whose callbacks have not run.
\<close>

datatype outcome = Fulfilled json | Rejected error

record writer =
  results :: "json list"
  failed :: "json list list"
  progress :: nat
  submitted :: "json list list"
  pending :: "(nat \<times> json list) list"

definition submit :: "nat \<Rightarrow> json list \<Rightarrow> writer \<Rightarrow> writer" where
  "submit i batch w =
     w\<lparr>submitted := submitted w @ [batch], pending := pending w @ [(i, batch)]\<rparr>"

text \<open>
  The callbacks of one settled request: \<^verbatim>\<open>results.push(res.data)\<close> or \<^verbatim>\<open>failed.push(batch)\<close>.
  A request that is not pending has no callback left to run.
\<close>

definition settle :: "writer \<Rightarrow> nat \<times> outcome \<Rightarrow> writer" where
  "settle w ev =
     (case map_of (pending w) (fst ev) of
        None \<Rightarrow> w
      | Some batch \<Rightarrow>
          (case snd ev of
             Fulfilled data \<Rightarrow>
               w\<lparr>results := results w @ [data],
                 pending := filter (\<lambda>p. fst p \<noteq> fst ev) (pending w)\<rparr>
           | Rejected e \<Rightarrow>
               w\<lparr>failed := failed w @ [batch],
                 pending := filter (\<lambda>p. fst p \<noteq> fst ev) (pending w)\<rparr>))"

function batchLoop ::
  "(nat \<Rightarrow> (nat \<times> outcome) list) \<Rightarrow> json list \<Rightarrow> nat \<Rightarrow> writer \<Rightarrow> writer" where
  "batchLoop arrivals processedContacts i w =
     (if i < length processedContacts
      then batchLoop arrivals processedContacts (i + BATCH_SIZE)
             ((foldl settle (submit i (slice i (i + BATCH_SIZE) processedContacts) w) (arrivals i))
                \<lparr>progress := progress w + length (slice i (i + BATCH_SIZE) processedContacts)\<rparr>)
      else w)"
  by pat_completeness auto
termination
  by (relation "measure (\<lambda>(arrivals, processedContacts, i, w). length processedContacts - i)")
     (auto simp: BATCH_SIZE_def)

text \<open>
  The whole function: every contact goes through \<^verbatim>\<open>processContact\<close> and is wrapped as
  \<^verbatim>\<open>{ contactPerson: ... }\<close> before the first batch is sent; an error thrown there leaves the
  function at once.
\<close>

definition contactPerson :: "obj \<Rightarrow> json" where
  "contactPerson c = JObj [(''contactPerson'', JObj c)]"

definition batchCreateContacts ::
  "(nat \<Rightarrow> (nat \<times> outcome) list) \<Rightarrow> obj list \<Rightarrow> options \<Rightarrow> error + writer" where
  "batchCreateContacts arrivals contacts opts =
     (case mapE (\<lambda>contact. processContact contact opts) contacts of
        Inl e \<Rightarrow> Inl e
      | Inr processed \<Rightarrow>
          Inr (batchLoop arrivals (map contactPerson processed) 0
                 \<lparr>results = [], failed = [], progress = 0, submitted = [], pending = []\<rparr>))"

section \<open>The import command (bin/index.js)\<close>

text \<open>
  The options of \<^verbatim>\<open>contacts import\<close> as the source declares them to the commander library:
  \<^verbatim>\<open>
  .option('-s, --source <source>', ...)
  .option('-d, --destination <destination>', ...)
  .option('-f, --file <file>', ...)
  .option('-l, --limit', ...)
  .option('--contact-groups <contact-groups>', ...)
  \<close>
  An option declared with a \<^verbatim>\<open><value>\<close> placeholder takes the next word of the command line
  as its value; one declared without, as \<^verbatim>\<open>--limit\<close> is, is a boolean flag that is \<^verbatim>\<open>true\<close>
  when present. A word that is no option is an operand, which the action never reads.
\<close>

record import_options =
  source :: "string option"
  destination :: "string option"
  file_opt :: "string option"
  limit :: bool
  contact_groups :: "string option"

datatype optname = Source | Destination | File | Limit | ContactGroups

text \<open>The declarations: the spellings of each option, and whether it takes a value.\<close>

definition importDecls :: "(string list \<times> optname \<times> bool) list" where
  "importDecls =
     [([''-s'', ''--source''], Source, True),
      ([''-d'', ''--destination''], Destination, True),
      ([''-f'', ''--file''], File, True),
      ([''-l'', ''--limit''], Limit, False),
      ([''--contact-groups''], ContactGroups, True)]"

definition declared :: "string \<Rightarrow> (optname \<times> bool) option" where
  "declared a = map_option snd (find (\<lambda>d. a \<in> set (fst d)) importDecls)"

fun setOption :: "optname \<Rightarrow> string option \<Rightarrow> import_options \<Rightarrow> import_options" where
  "setOption Source v opts = opts\<lparr>source := v\<rparr>"
| "setOption Destination v opts = opts\<lparr>destination := v\<rparr>"
| "setOption File v opts = opts\<lparr>file_opt := v\<rparr>"
| "setOption Limit v opts = opts\<lparr>limit := True\<rparr>"
| "setOption ContactGroups v opts = opts\<lparr>contact_groups := v\<rparr>"

datatype cli_error = MissingArgument string | UnknownOption string

definition optionLike :: "string \<Rightarrow> bool" where
  "optionLike a = (take 1 a = ''-'' \<and> a \<noteq> ''-'')"

fun parseImport ::
  "string list \<Rightarrow> import_options \<times> string list \<Rightarrow> cli_error + import_options \<times> string list" where
  "parseImport [] (opts, operands) = Inr (opts, operands)"
| "parseImport [a] (opts, operands) =
     (case declared a of
        Some (n, takesValue) \<Rightarrow>
          if takesValue then Inl (MissingArgument a) else Inr (setOption n None opts, operands)
      | None \<Rightarrow> if optionLike a then Inl (UnknownOption a) else Inr (opts, operands @ [a]))"
| "parseImport (a # v # args) (opts, operands) =
     (case declared a of
        Some (n, takesValue) \<Rightarrow>
          if takesValue then parseImport args (setOption n (Some v) opts, operands)
          else parseImport (v # args) (setOption n None opts, operands)
      | None \<Rightarrow>
          if optionLike a then Inl (UnknownOption a)
          else parseImport (v # args) (opts, operands @ [a]))"

definition noOptions :: import_options where
  "noOptions = \<lparr>source = None, destination = None, file_opt = None, limit = False,
                contact_groups = None\<rparr>"

text \<open>
  \<^verbatim>\<open>
  let contacts = JSON.parse(fs.readFileSync(file));
  if (options.limit) {
    contacts = contacts.slice(0, options.limit);
  }
  \<close>
  \<^verbatim>\<open>slice\<close> converts its bounds to integers, and \<^verbatim>\<open>true\<close> converts to 1.
\<close>

definition toInteger :: "bool \<Rightarrow> nat" where
  "toInteger b = (if b then 1 else 0)"

definition limitContacts :: "import_options \<Rightarrow> 'a list \<Rightarrow> 'a list" where
  "limitContacts opts contacts =
     (if limit opts then slice 0 (toInteger (limit opts)) contacts else contacts)"

section \<open>Authorization: authorize (auth.js)\<close>

text \<open>
  What \<^verbatim>\<open>authorize\<close> takes from outside: the configuration, the directory of the token
  files, the file system as seen by \<^verbatim>\<open>fs.readFileSync\<close> (the text of the file, or the error
  thrown), \<^verbatim>\<open>JSON.parse\<close> (\<open>None\<close> where it throws a SyntaxError), and the interactive flow
  \<^verbatim>\<open>getAccessToken\<close>, whose result depends on what the user types and on the token endpoint.
\<close>

record config =
  clientId :: "string option"
  clientSecret :: "string option"
  redirectUri :: string

record oauth2Client =
  client_id :: "string option"
  client_secret :: "string option"
  redirect_uri :: string
  credentials :: "json option"

record auth_env =
  config :: config
  TOKENS_DIR :: string
  readFileSync :: "string \<Rightarrow> error + string"
  JSON_parse :: "string \<Rightarrow> json option"
  getAccessToken :: "string \<Rightarrow> error + oauth2Client"

definition getTokenPath :: "auth_env \<Rightarrow> string \<Rightarrow> string" where
  "getTokenPath env accountEmail = TOKENS_DIR env @ ''/'' @ accountEmail @ ''.json''"

text \<open>The \<^verbatim>\<open>code\<close> property of a thrown error; only file-system errors have one.\<close>

fun error_code :: "error \<Rightarrow> string option" where
  "error_code (SystemError c) = Some c"
| "error_code e = None"

text \<open>
  The three ways out of \<^verbatim>\<open>authorize\<close>: \<^verbatim>\<open>return oauth2Client\<close> at the end of the \<^verbatim>\<open>try\<close>
  block, \<^verbatim>\<open>return getAccessToken(accountEmail)\<close> and \<^verbatim>\<open>throw error\<close> in the \<^verbatim>\<open>catch\<close> block.
\<close>

datatype authorized =
    FromStoredToken oauth2Client
  | FromGetAccessToken "error + oauth2Client"
  | Rethrown error

definition authorize :: "auth_env \<Rightarrow> string \<Rightarrow> authorized" where
  "authorize env accountEmail =
     (case readFileSync env (getTokenPath env accountEmail) of
        Inl err \<Rightarrow>
          if error_code err = Some ''ENOENT''
          then FromGetAccessToken (getAccessToken env accountEmail)
          else Rethrown err
      | Inr text \<Rightarrow>
          (case JSON_parse env text of
             None \<Rightarrow> Rethrown SyntaxError
           | Some token \<Rightarrow>
               FromStoredToken
                 \<lparr>client_id = clientId (config env), client_secret = clientSecret (config env),
                  redirect_uri = ''urn:ietf:wg:oauth:2.0:oob'', credentials = Some token\<rparr>))"

section \<open>Inputs for the examples\<close>

text \<open>
  A record as the People API returns it, with a name entered by the user and one taken from
  the linked profile, and what \<^verbatim>\<open>processContact\<close> makes of it for a list of groups.
\<close>

definition exampleContact :: obj where
  "exampleContact =
     [(''resourceName'', JStr ''people/c1''),
      (''etag'', JStr ''%EgUBAj03''),
      (''names'', JArr
         [JObj [(''metadata'', JObj [(''primary'', JBool True),
                                     (''source'', JObj [(''type'', JStr ''CONTACT''), (''id'', JStr ''1a'')])]),
                (''displayName'', JStr ''Ann'')],
          JObj [(''metadata'', JObj [(''source'', JObj [(''type'', JStr ''PROFILE''), (''id'', JStr ''77'')])]),
                (''displayName'', JStr ''Ann P'')]]),
      (''photos'', JArr [JObj [(''url'', JStr ''https://example.org/p'')]]),
      (''memberships'', JArr [JObj [(''contactGroupMembership'',
          JObj [(''contactGroupId'', JStr ''f1''), (''contactGroupResourceName'', JStr ''contactGroups/f1'')])]])]"

definition sanitizedExample :: "string list \<Rightarrow> obj" where
  "sanitizedExample groups =
     [(''names'', JArr
         [JObj [(''metadata'', JObj [(''primary'', JBool True),
                                     (''source'', JObj [(''type'', JStr ''CONTACT'')])]),
                (''displayName'', JStr ''Ann'')]]),
      (''memberships'', JArr (map membership (''myContacts'' # groups)))]"

text \<open>A store with one record at reference 0.\<close>

definition etagStore :: store where
  "etagStore = Map.empty(0 \<mapsto> [(''etag'', JStr ''%EgUBAj03''), (''nicknames'', JArr [])])"

text \<open>
  Fifty-three and more records for the batch writer, numbered, and what the writer sends for
  each: the sanitized record wrapped as \<^verbatim>\<open>{ contactPerson: ... }\<close>.
\<close>

definition numbered :: "nat \<Rightarrow> obj" where
  "numbered n = [(''etag'', JStr ''%EgUBAj03''), (''clientData'', JNum (int n))]"

definition sanitizedNumbered :: "nat \<Rightarrow> json" where
  "sanitizedNumbered n =
     contactPerson [(''clientData'', JNum (int n)), (''memberships'', JArr [membership ''myContacts''])]"

text \<open>
  Two behaviours of the network for three batches. In both, the first request is answered
  during the wait that follows it and the second is rejected during the wait that follows
  it. In \<open>punctual\<close> the third is answered during the last wait as well; in \<open>lateThird\<close>
  its answer takes longer than the last wait.
\<close>

definition lateThird :: "nat \<Rightarrow> (nat \<times> outcome) list" where
  "lateThird i =
     (if i = 0 then [(0, Fulfilled (JStr ''created 25''))]
      else if i = 25 then [(25, Rejected TransportError)]
      else [])"

definition punctual :: "nat \<Rightarrow> (nat \<times> outcome) list" where
  "punctual i =
     (if i = 0 then [(0, Fulfilled (JStr ''created 25''))]
      else if i = 25 then [(25, Rejected TransportError)]
      else [(i, Fulfilled (JStr ''created 3''))])"

text \<open>Contact groups for an account, and a remote side that serves three pages of 2, 2 and 1 items.\<close>

definition group :: "nat \<Rightarrow> json" where
  "group n = JObj [(''resourceName'', JStr (''contactGroups/g'' @ replicate n (CHR ''i''))),
                   (''groupType'', JStr ''USER_CONTACT_GROUP'')]"

definition threePages :: api where
  "threePages req =
     (if pageToken req = None then
        Inr \<lparr>items = Some [JNum 1, JNum 2], nextPageToken = Some ''t1''\<rparr>
      else if pageToken req = Some ''t1'' then
        Inr \<lparr>items = Some [JNum 3, JNum 4], nextPageToken = Some ''t2''\<rparr>
      else if pageToken req = Some ''t2'' then
        Inr \<lparr>items = Some [JNum 5], nextPageToken = Some []\<rparr>
      else Inl TransportError)"

text \<open>
  An environment for \<^verbatim>\<open>authorize\<close> over a given file system: only the text \<^verbatim>\<open>{}\<close> parses, and
  the interactive flow ends with a rejected token request.
\<close>

definition exampleEnv :: "(string \<Rightarrow> error + string) \<Rightarrow> auth_env" where
  "exampleEnv fs =
     \<lparr>config = \<lparr>clientId = Some ''client'', clientSecret = Some ''secret'',
                 redirectUri = ''http://localhost''\<rparr>,
      TOKENS_DIR = ''/app/.tokens'',
      readFileSync = fs,
      JSON_parse = (\<lambda>s. if s = ''{}'' then Some (JObj []) else None),
      getAccessToken = (\<lambda>accountEmail. Inl TransportError)\<rparr>"

section \<open>Properties of the sanitizer\<close>

subsection \<open>The cleaner\<close>

lemma guard_objectCleaner:
  "(if typeof_object v then objectCleaner v else Inr v) = objectCleaner v"
  by (cases v) simp_all

lemma objectCleaner_prim: "\<not> typeof_object x \<Longrightarrow> objectCleaner x = Inr x \<and> noIdKeys x"
  by (cases x) simp_all

lemma cleanElems_Cons_Inr:
  "cleanElems (x # xs) = Inr zs \<longleftrightarrow> (\<exists>y ys. objectCleaner x = Inr y \<and> cleanElems xs = Inr ys \<and> zs = y # ys)"
  by (auto simp: guard_objectCleaner split: sum.splits)

lemma cleanFields_Cons_Inr:
  "cleanFields (kv # kvs) = Inr zs \<longleftrightarrow>
     (if fst kv = ''id'' \<or> fst kv = ''resourceName'' then cleanFields kvs = Inr zs
      else (\<exists>y ys. objectCleaner (snd kv) = Inr y \<and> cleanFields kvs = Inr ys \<and> zs = (fst kv, y) # ys))"
  by (auto simp: guard_objectCleaner split: sum.splits)

lemma clean_noId:
  "objectCleaner v = Inr v' \<Longrightarrow> noIdKeys v'"
  "cleanElems xs = Inr xs' \<Longrightarrow> noIdKeysElems xs'"
  "cleanFields kvs = Inr kvs' \<Longrightarrow> noIdKeysFields kvs'"
proof (induction v and xs and kvs arbitrary: v' and xs' and kvs' rule: objectCleaner_cleanElems_cleanFields.induct)
  case (8 x xs)
  from "8.prems" obtain y ys where y: "objectCleaner x = Inr y" "cleanElems xs = Inr ys" "xs' = y # ys"
    unfolding cleanElems_Cons_Inr by blast
  have "noIdKeys y"
  proof (cases "typeof_object x")
    case True then show ?thesis using "8.IH"(1) y(1) by blast
  next
    case False then show ?thesis using objectCleaner_prim[of x] y(1) by simp
  qed
  moreover have "noIdKeysElems ys"
    using "8.IH"(2)[of y ys] y by (simp add: guard_objectCleaner)
  ultimately show ?case using y(3) by simp
next
  case (10 kv kvs)
  show ?case
  proof (cases "fst kv = ''id'' \<or> fst kv = ''resourceName''")
    case True
    then show ?thesis using "10.IH"(1) "10.prems" unfolding cleanFields_Cons_Inr by simp
  next
    case False
    from "10.prems" False obtain y ys where
      y: "objectCleaner (snd kv) = Inr y" "cleanFields kvs = Inr ys" "kvs' = (fst kv, y) # ys"
      unfolding cleanFields_Cons_Inr by auto
    have "noIdKeys y"
    proof (cases "typeof_object (snd kv)")
      case True then show ?thesis using "10.IH"(2) False y(1) by blast
    next
      case F: False then show ?thesis using objectCleaner_prim[of "snd kv"] y(1) by simp
    qed
    moreover have "noIdKeysFields ys"
      using "10.IH"(3)[of y ys] False y by (simp add: guard_objectCleaner)
    ultimately show ?thesis using y(3) False by simp
  qed
qed (auto split: sum.splits)

lemma clean_idem:
  "objectCleaner v = Inr v' \<Longrightarrow> objectCleaner v' = Inr v'"
  "cleanElems xs = Inr xs' \<Longrightarrow> cleanElems xs' = Inr xs'"
  "cleanFields kvs = Inr kvs' \<Longrightarrow> cleanFields kvs' = Inr kvs'"
proof (induction v and xs and kvs arbitrary: v' and xs' and kvs' rule: objectCleaner_cleanElems_cleanFields.induct)
  case (8 x xs)
  from "8.prems" obtain y ys where y: "objectCleaner x = Inr y" "cleanElems xs = Inr ys" "xs' = y # ys"
    unfolding cleanElems_Cons_Inr by blast
  have "objectCleaner y = Inr y"
  proof (cases "typeof_object x")
    case True then show ?thesis using "8.IH"(1) y(1) by blast
  next
    case False then show ?thesis using objectCleaner_prim[of x] y(1) by simp
  qed
  moreover have "cleanElems ys = Inr ys"
    using "8.IH"(2)[of y ys] y by (simp add: guard_objectCleaner)
  ultimately show ?case using y(3) unfolding cleanElems_Cons_Inr by simp
next
  case (10 kv kvs)
  show ?case
  proof (cases "fst kv = ''id'' \<or> fst kv = ''resourceName''")
    case True
    then show ?thesis using "10.IH"(1) "10.prems" unfolding cleanFields_Cons_Inr by simp
  next
    case False
    from "10.prems" False obtain y ys where
      y: "objectCleaner (snd kv) = Inr y" "cleanFields kvs = Inr ys" "kvs' = (fst kv, y) # ys"
      unfolding cleanFields_Cons_Inr by auto
    have "objectCleaner y = Inr y"
    proof (cases "typeof_object (snd kv)")
      case True then show ?thesis using "10.IH"(2) False y(1) by blast
    next
      case F: False then show ?thesis using objectCleaner_prim[of "snd kv"] y(1) by simp
    qed
    moreover have "cleanFields ys = Inr ys"
      using "10.IH"(3)[of y ys] False y by (simp add: guard_objectCleaner)
    ultimately show ?thesis using y(3) False unfolding cleanFields_Cons_Inr by simp
  qed
qed (auto split: sum.splits)


lemma cleanElems_length: "cleanElems xs = Inr ys \<Longrightarrow> length ys = length xs"
  by (induction xs arbitrary: ys) (auto simp: cleanElems_Cons_Inr simp del: cleanElems.simps(2))

lemma cleanElems_nth:
  "cleanElems xs = Inr ys \<Longrightarrow> i < length xs \<Longrightarrow> objectCleaner (xs ! i) = Inr (ys ! i)"
proof (induction xs arbitrary: ys i)
  case Nil then show ?case by simp
next
  case (Cons x xs)
  then show ?case
    by (cases i) (auto simp: cleanElems_Cons_Inr simp del: cleanElems.simps)
qed

lemma cleanFields_keys:
  "cleanFields kvs = Inr kvs' \<Longrightarrow> fst ` set kvs' = fst ` set kvs - {''id'', ''resourceName''}"
proof (induction kvs arbitrary: kvs')
  case Nil then show ?case by simp
next
  case (Cons kv kvs)
  show ?case
  proof (cases "fst kv = ''id'' \<or> fst kv = ''resourceName''")
    case True
    then have "cleanFields kvs = Inr kvs'" using Cons.prems unfolding cleanFields_Cons_Inr by simp
    from Cons.IH[OF this] True show ?thesis by auto
  next
    case False
    with Cons.prems obtain y ys where y: "cleanFields kvs = Inr ys" "kvs' = (fst kv, y) # ys"
      unfolding cleanFields_Cons_Inr by auto
    from Cons.IH[OF y(1)] y(2) False show ?thesis by auto
  qed
qed

lemma cleanFields_map_of:
  assumes "cleanFields kvs = Inr kvs'" and "k \<noteq> ''id''" and "k \<noteq> ''resourceName''"
  shows "(map_of kvs k = None \<longrightarrow> map_of kvs' k = None) \<and>
         (\<forall>v. map_of kvs k = Some v \<longrightarrow> (\<exists>v'. objectCleaner v = Inr v' \<and> map_of kvs' k = Some v'))"
  using assms(1)
proof (induction kvs arbitrary: kvs')
  case Nil then show ?case by simp
next
  case (Cons kv kvs)
  show ?case
  proof (cases "fst kv = ''id'' \<or> fst kv = ''resourceName''")
    case True
    then have c: "cleanFields kvs = Inr kvs'" using Cons.prems unfolding cleanFields_Cons_Inr by simp
    have "map_of (kv # kvs) k = map_of kvs k" using True assms(2,3) by (cases kv) auto
    with Cons.IH[OF c] show ?thesis by simp
  next
    case False
    with Cons.prems obtain y ys where
      y: "objectCleaner (snd kv) = Inr y" "cleanFields kvs = Inr ys" "kvs' = (fst kv, y) # ys"
      unfolding cleanFields_Cons_Inr by auto
    from Cons.IH[OF y(2)] y(1,3) show ?thesis by (cases kv) auto
  qed
qed

lemma deleteProp_keys: "fst ` set (deleteProp k kvs) = fst ` set kvs - {k}"
  by (auto simp: deleteProp_def)

lemma deleteProp_absent: "k \<notin> fst ` set kvs \<Longrightarrow> deleteProp k kvs = kvs"
  unfolding deleteProp_def by (induction kvs) auto

lemma setProp_keys: "fst ` set (setProp k v kvs) = insert k (fst ` set kvs)"
proof (induction kvs)
  case Nil then show ?case by simp
next
  case (Cons kv kvs)
  then show ?case by (cases kv) (simp add: insert_commute)
qed

lemma map_of_setProp: "map_of (setProp k v kvs) k' = (if k' = k then Some v else map_of kvs k')"
  by (induction kvs) auto

lemma setProp_same: "map_of kvs k = Some v \<Longrightarrow> setProp k v kvs = kvs"
  by (induction kvs) (auto split: if_splits)

lemma deleteReadOnly_keys:
  "fst ` set (deleteReadOnly c) =
     fst ` set c - {''metadata'', ''resourceName'', ''etag'', ''photos'', ''coverPhotos''}"
proof -
  have gen: "\<And>(A::'a set) a b c d e. A - {a} - {b} - {c} - {d} - {e} - {a} = A - {a, b, c, d, e}"
    by blast
  show ?thesis unfolding deleteReadOnly_def deleteProp_keys by (rule gen)
qed

lemma deleteReadOnly_absent:
  assumes "fst ` set c \<inter> {''metadata'', ''resourceName'', ''etag'', ''photos'', ''coverPhotos''} = {}"
  shows "deleteReadOnly c = c"
proof -
  have "\<And>k. k \<in> {''metadata'', ''resourceName'', ''etag'', ''photos'', ''coverPhotos''}
          \<Longrightarrow> deleteProp k c = c"
    using assms by (intro deleteProp_absent) blast
  then show ?thesis unfolding deleteReadOnly_def by simp
qed

lemma filterField_Inr:
  "filterField k c = Inr c' \<Longrightarrow>
     c' = c \<or> (\<exists>xs ys. map_of c k = Some (JArr xs) \<and> filterE isContactSource xs = Inr ys
                  \<and> c' = setProp k (JArr ys) c)"
  unfolding filterField_def
  by (simp split: option.splits if_splits json.splits sum.splits)

lemma setProp_present_keys:
  assumes "map_of c k = Some v"
  shows "fst ` set (setProp k w c) = fst ` set c"
proof -
  have "k \<in> fst ` set c" using assms by (metis map_of_SomeD fst_conv image_eqI)
  then show ?thesis unfolding setProp_keys by (rule insert_absorb)
qed

lemma filterField_keys: "filterField k c = Inr c' \<Longrightarrow> fst ` set c' = fst ` set c"
  using filterField_Inr[of k c c'] setProp_present_keys[of c k] by metis

lemma filterField_other:
  "filterField k c = Inr c' \<Longrightarrow> k' \<noteq> k \<Longrightarrow> map_of c' k' = map_of c k'"
  using filterField_Inr[of k c c'] by (auto simp: map_of_setProp)

lemma filterE_all: "filterE p xs = Inr ys \<Longrightarrow> y \<in> set ys \<Longrightarrow> p y = Inr True"
proof (induction xs arbitrary: ys)
  case Nil then show ?case by simp
next
  case (Cons x xs)
  then show ?case by (auto split: sum.splits if_splits)
qed

lemma filterE_fix: "(\<And>y. y \<in> set ys \<Longrightarrow> p y = Inr True) \<Longrightarrow> filterE p ys = Inr ys"
  by (induction ys) simp_all

lemma getProp_clean:
  assumes "objectCleaner w = Inr w'" and "getProp w k = Some v"
    and "k \<noteq> ''id''" and "k \<noteq> ''resourceName''"
  shows "\<exists>v'. getProp w' k = Some v' \<and> objectCleaner v = Inr v'"
proof (cases w)
  case (JObj kvs)
  with assms(1) obtain kvs' where k: "cleanFields kvs = Inr kvs'" "w' = JObj kvs'"
    by (auto split: sum.splits)
  from cleanFields_map_of[OF k(1) assms(3,4)] assms(2) JObj k(2) show ?thesis by auto
qed (use assms(2) in simp_all)




lemma optChain_Some: "optChain (Some w) k = Some v \<Longrightarrow> getProp w k = Some v"
  unfolding optChain_def by (cases w) simp_all

lemma optChain_getProp: "getProp w k = Some v \<Longrightarrow> optChain (Some w) k = Some v"
  unfolding optChain_def by (cases w) simp_all

lemma optChain_None [simp]: "optChain None k = None"
  unfolding optChain_def by simp

lemma optChain2_Some:
  assumes "optChain (optChain (getProp y k1) k2) k3 = Some t"
  shows "\<exists>m s. getProp y k1 = Some m \<and> getProp m k2 = Some s \<and> getProp s k3 = Some t"
proof -
  obtain s where s: "optChain (getProp y k1) k2 = Some s"
    using assms by (cases "optChain (getProp y k1) k2") simp_all
  obtain m where m: "getProp y k1 = Some m"
    using s by (cases "getProp y k1") simp_all
  have "getProp m k2 = Some s" using s m optChain_Some by simp
  moreover have "getProp s k3 = Some t" using assms s optChain_Some by simp
  ultimately show ?thesis using m by blast
qed

lemma isContactSource_True:
  "isContactSource y = Inr True \<longleftrightarrow>
     (\<exists>m s. getProp y ''metadata'' = Some m \<and> getProp m ''source'' = Some s
            \<and> getProp s ''type'' = Some (JStr ''CONTACT''))"
proof
  assume a: "isContactSource y = Inr True"
  then have t: "optChain (optChain (getProp y ''metadata'') ''source'') ''type'' = Some (JStr ''CONTACT'')"
    unfolding isContactSource_def by (simp split: if_splits)
  then show "\<exists>m s. getProp y ''metadata'' = Some m \<and> getProp m ''source'' = Some s
            \<and> getProp s ''type'' = Some (JStr ''CONTACT'')"
    by (rule optChain2_Some)
next
  assume "\<exists>m s. getProp y ''metadata'' = Some m \<and> getProp m ''source'' = Some s
            \<and> getProp s ''type'' = Some (JStr ''CONTACT'')"
  then obtain m s where ms: "getProp y ''metadata'' = Some m" "getProp m ''source'' = Some s"
            "getProp s ''type'' = Some (JStr ''CONTACT'')" by blast
  have "y \<noteq> JNull" using ms(1) by auto
  then show "isContactSource y = Inr True"
    unfolding isContactSource_def using ms by (simp add: optChain_getProp)
qed

lemma isContactSource_clean:
  assumes "isContactSource y = Inr True" and "objectCleaner y = Inr y'"
  shows "isContactSource y' = Inr True"
proof -
  from assms(1) obtain m s where ms: "getProp y ''metadata'' = Some m" "getProp m ''source'' = Some s"
            "getProp s ''type'' = Some (JStr ''CONTACT'')"
    unfolding isContactSource_True by blast
  from getProp_clean[OF assms(2) ms(1)] obtain m' where
    m': "getProp y' ''metadata'' = Some m'" "objectCleaner m = Inr m'" by auto
  from getProp_clean[OF m'(2) ms(2)] obtain s' where
    s': "getProp m' ''source'' = Some s'" "objectCleaner s = Inr s'" by auto
  from getProp_clean[OF s'(2) ms(3)] have "getProp s' ''type'' = Some (JStr ''CONTACT'')" by auto
  with m'(1) s'(1) show ?thesis unfolding isContactSource_True by blast
qed


lemma filterField_value:
  assumes "filterField k c = Inr c1" and "map_of c1 k = Some v"
  shows "\<not> truthy v \<or> (\<exists>ys. v = JArr ys \<and> (\<forall>y\<in>set ys. isContactSource y = Inr True))"
proof (cases "map_of c k")
  case None
  with assms show ?thesis unfolding filterField_def by simp
next
  case (Some w)
  show ?thesis
  proof (cases "truthy w")
    case False
    with assms Some show ?thesis unfolding filterField_def by simp
  next
    case True
    with assms(1) Some obtain xs ys where
      x: "w = JArr xs" "filterE isContactSource xs = Inr ys" "c1 = setProp k (JArr ys) c"
      unfolding filterField_def by (cases w) (simp_all split: sum.splits)
    from x(3) assms(2) have "v = JArr ys" by (simp add: map_of_setProp)
    with filterE_all[OF x(2)] show ?thesis by blast
  qed
qed

lemma falsy_clean: "\<not> truthy v \<Longrightarrow> objectCleaner v = Inr v' \<Longrightarrow> v' = v"
  by (cases v) simp_all

lemma filterField_stable:
  assumes f: "filterField k c = Inr c1"
    and same: "map_of c2 k = map_of c1 k"
    and cl: "cleanFields c2 = Inr r"
    and k: "k \<noteq> ''id''" "k \<noteq> ''resourceName''"
  shows "filterField k r = Inr r"
proof (cases "map_of c1 k")
  case None
  with cleanFields_map_of[OF cl k] same have "map_of r k = None" by simp
  then show ?thesis unfolding filterField_def by simp
next
  case (Some v)
  with cleanFields_map_of[OF cl k] same obtain v' where
    v': "objectCleaner v = Inr v'" "map_of r k = Some v'" by auto
  from filterField_value[OF f Some] consider (falsy) "\<not> truthy v" |
    (filtered) ys where "v = JArr ys" "\<forall>y\<in>set ys. isContactSource y = Inr True" by blast
  then show ?thesis
  proof cases
    case falsy
    with v' falsy_clean[of v v'] show ?thesis unfolding filterField_def by simp
  next
    case filtered
    with v'(1) obtain ys' where ys': "cleanElems ys = Inr ys'" "v' = JArr ys'"
      by (auto split: sum.splits)
    have "isContactSource y' = Inr True" if "y' \<in> set ys'" for y'
    proof -
      from that obtain i where i: "i < length ys'" "y' = ys' ! i" by (auto simp: in_set_conv_nth)
      then have il: "i < length ys" using cleanElems_length[OF ys'(1)] by simp
      have "isContactSource (ys ! i) = Inr True"
        using filtered(2) il by simp
      then show ?thesis using cleanElems_nth[OF ys'(1) il] i(2) isContactSource_clean by simp
    qed
    then have "filterE isContactSource ys' = Inr ys'" by (rule filterE_fix)
    then show ?thesis unfolding filterField_def using v'(2) ys'(2) by (simp add: setProp_same)
  qed
qed


lemma processContact_Inr:
  assumes "processContact r opts = Inr r'"
  obtains c1 c2 where "filterField ''names'' (deleteReadOnly r) = Inr c1"
    and "filterField ''emailAddresses'' c1 = Inr c2"
    and "cleanFields (setProp ''memberships'' (JArr (defaultMembership opts)) c2) = Inr r'"
  using assms unfolding processContact_def by (auto split: sum.splits)

lemma processContact_keys:
  assumes "processContact r opts = Inr r'"
  shows "fst ` set r' =
     insert ''memberships''
       (fst ` set r - {''metadata'', ''resourceName'', ''etag'', ''photos'', ''coverPhotos''})
     - {''id'', ''resourceName''}"
proof -
  from assms obtain c1 c2 where c: "filterField ''names'' (deleteReadOnly r) = Inr c1"
    "filterField ''emailAddresses'' c1 = Inr c2"
    "cleanFields (setProp ''memberships'' (JArr (defaultMembership opts)) c2) = Inr r'"
    by (rule processContact_Inr)
  have "fst ` set c2 = fst ` set r - {''metadata'', ''resourceName'', ''etag'', ''photos'', ''coverPhotos''}"
    using filterField_keys[OF c(1)] filterField_keys[OF c(2)] deleteReadOnly_keys by simp
  then show ?thesis using cleanFields_keys[OF c(3)] by (simp only: setProp_keys)
qed

lemma membership_clean: "objectCleaner (membership g) = Inr (membership g)"
  unfolding membership_def by simp

lemma memberships_clean: "cleanElems (map membership gs) = Inr (map membership gs)"
  by (induction gs) (simp_all add: guard_objectCleaner membership_clean)

lemma defaultMembership_clean:
  "objectCleaner (JArr (defaultMembership opts)) = Inr (JArr (defaultMembership opts))"
proof -
  have "defaultMembership opts =
          map membership (''myContacts'' # (case contactGroups opts of None \<Rightarrow> [] | Some gs \<Rightarrow> gs))"
    unfolding defaultMembership_def by (simp split: option.splits)
  then show ?thesis using memberships_clean[of "''myContacts'' # (case contactGroups opts of None \<Rightarrow> [] | Some gs \<Rightarrow> gs)"]
    by (simp del: cleanElems.simps list.map)
qed

lemma processContact_memberships:
  assumes "processContact r opts = Inr r'"
  shows "map_of r' ''memberships'' = Some (JArr (defaultMembership opts))"
proof -
  from assms obtain c2 where
    c: "cleanFields (setProp ''memberships'' (JArr (defaultMembership opts)) c2) = Inr r'"
    by (rule processContact_Inr)
  have "map_of (setProp ''memberships'' (JArr (defaultMembership opts)) c2) ''memberships''
          = Some (JArr (defaultMembership opts))"
    by (simp add: map_of_setProp)
  with cleanFields_map_of[OF c, of "''memberships''"] defaultMembership_clean show ?thesis
    by simp
qed

subsection \<open>The claims about the sanitizer\<close>

text \<open>
  C4, as the code has it. \<^verbatim>\<open>processContact\<close> does not leave its argument alone: it returns the
  reference it was given, the record behind that reference has become the sanitized record,
  and every other record of the store is as before.
\<close>

theorem sanitize_in_place:
  assumes "processContact_ref st r opts = Inr (st', r')"
  shows "r' = r \<and> (\<exists>c c'. st r = Some c \<and> processContact c opts = Inr c' \<and> st' r = Some c')
       \<and> (\<forall>q. q \<noteq> r \<longrightarrow> st' q = st q)"
  using assms unfolding processContact_ref_def
  by (auto split: option.splits sum.splits)

theorem sanitize_in_place_witness:
  "processContact_ref etagStore 0 \<lparr>contactGroups = None\<rparr>
     = Inr (etagStore(0 \<mapsto> [(''nicknames'', JArr []), (''memberships'', JArr [membership ''myContacts''])]), 0)
   \<and> (\<exists>c c'. etagStore 0 = Some c \<and> processContact c \<lparr>contactGroups = None\<rparr> = Inr c'
          \<and> (etagStore(0 \<mapsto> [(''nicknames'', JArr []), (''memberships'', JArr [membership ''myContacts''])])) 0 = Some c')
   \<and> (etagStore(0 \<mapsto> [(''nicknames'', JArr []), (''memberships'', JArr [membership ''myContacts''])])) 1 = etagStore 1"
proof -
  have c: "processContact [(''etag'', JStr ''%EgUBAj03''), (''nicknames'', JArr [])] \<lparr>contactGroups = None\<rparr>
             = Inr [(''nicknames'', JArr []), (''memberships'', JArr [membership ''myContacts''])]"
    by code_simp
  have h: "processContact_ref etagStore 0 \<lparr>contactGroups = None\<rparr>
     = Inr (etagStore(0 \<mapsto> [(''nicknames'', JArr []), (''memberships'', JArr [membership ''myContacts''])]), 0)"
    unfolding processContact_ref_def etagStore_def using c by simp
  from sanitize_in_place[OF h] h show ?thesis by simp
qed

text \<open>
  C4 as stated fails: the record the caller supplied has lost its \<^verbatim>\<open>etag\<close> and gained
  \<^verbatim>\<open>memberships\<close> when the call returns.
\<close>

theorem sanitize_mutates_argument:
  "processContact_ref etagStore 0 \<lparr>contactGroups = None\<rparr>
     = Inr (etagStore(0 \<mapsto> [(''nicknames'', JArr []), (''memberships'', JArr [membership ''myContacts''])]), 0)
   \<and> (etagStore(0 \<mapsto> [(''nicknames'', JArr []), (''memberships'', JArr [membership ''myContacts''])])) 0
       \<noteq> etagStore 0"
proof -
  have c: "processContact [(''etag'', JStr ''%EgUBAj03''), (''nicknames'', JArr [])] \<lparr>contactGroups = None\<rparr>
             = Inr [(''nicknames'', JArr []), (''memberships'', JArr [membership ''myContacts''])]"
    by code_simp
  show ?thesis unfolding processContact_ref_def etagStore_def using c by simp
qed

text \<open>
  C5 fails on the code: a \<^verbatim>\<open>null\<close> field value, a \<^verbatim>\<open>null\<close> entry of \<^verbatim>\<open>names\<close>, and a
  \<^verbatim>\<open>names\<close> that is a string each make \<^verbatim>\<open>processContact\<close> throw a TypeError.
\<close>

theorem sanitize_throws_on_null:
  "processContact [(''nicknames'', JNull)] \<lparr>contactGroups = None\<rparr> = Inl TypeError
   \<and> processContact [(''names'', JArr [JNull])] \<lparr>contactGroups = None\<rparr> = Inl TypeError
   \<and> processContact [(''names'', JStr ''Ann'')] \<lparr>contactGroups = None\<rparr> = Inl TypeError"
  by code_simp

text \<open>
  C6. The record that \<^verbatim>\<open>processContact\<close> returns has no \<^verbatim>\<open>resourceName\<close>, \<^verbatim>\<open>etag\<close>,
  \<^verbatim>\<open>photos\<close> or \<^verbatim>\<open>coverPhotos\<close> field at the top level, and no \<^verbatim>\<open>id\<close> or \<^verbatim>\<open>resourceName\<close>
  key at any depth.
\<close>

theorem sanitize_strips:
  assumes "processContact r opts = Inr r'"
  shows "''resourceName'' \<notin> fst ` set r' \<and> ''etag'' \<notin> fst ` set r'
       \<and> ''photos'' \<notin> fst ` set r' \<and> ''coverPhotos'' \<notin> fst ` set r' \<and> noIdKeys (JObj r')"
proof -
  from assms obtain c2 where
    c: "cleanFields (setProp ''memberships'' (JArr (defaultMembership opts)) c2) = Inr r'"
    by (rule processContact_Inr)
  have "noIdKeys (JObj r')" using clean_noId(3)[OF c] by simp
  then show ?thesis unfolding processContact_keys[OF assms] by simp
qed

theorem sanitize_strips_witness:
  "processContact exampleContact \<lparr>contactGroups = Some [''a'', ''b'']\<rparr> = Inr (sanitizedExample [''a'', ''b''])
   \<and> ''resourceName'' \<notin> fst ` set (sanitizedExample [''a'', ''b''])
   \<and> ''etag'' \<notin> fst ` set (sanitizedExample [''a'', ''b''])
   \<and> ''photos'' \<notin> fst ` set (sanitizedExample [''a'', ''b''])
   \<and> ''coverPhotos'' \<notin> fst ` set (sanitizedExample [''a'', ''b''])
   \<and> noIdKeys (JObj (sanitizedExample [''a'', ''b'']))"
proof -
  have h: "processContact exampleContact \<lparr>contactGroups = Some [''a'', ''b'']\<rparr>
             = Inr (sanitizedExample [''a'', ''b''])"
    by code_simp
  from sanitize_strips[OF h] h show ?thesis by simp
qed

text \<open>
  C7. Whatever memberships the input record has, the record returned carries the default
  membership followed by one membership per group of \<^verbatim>\<open>options.contactGroups\<close>: for the
  groups \<open>[a, b]\<close> exactly the three entries that name \<^verbatim>\<open>contactGroups/myContacts\<close>,
  \<^verbatim>\<open>contactGroups/a\<close> and \<^verbatim>\<open>contactGroups/b\<close>, in this order; when the option is empty or
  absent exactly the one entry that names \<^verbatim>\<open>contactGroups/myContacts\<close>.
\<close>

theorem sanitize_memberships:
  assumes "processContact r opts = Inr r'"
  shows "(contactGroups opts = Some [a, b] \<longrightarrow>
            map_of r' ''memberships''
              = Some (JArr
                  [JObj [(''contactGroupMembership'',
                          JObj [(''contactGroupResourceName'', JStr ''contactGroups/myContacts'')])],
                   JObj [(''contactGroupMembership'',
                          JObj [(''contactGroupResourceName'', JStr (''contactGroups/'' @ a))])],
                   JObj [(''contactGroupMembership'',
                          JObj [(''contactGroupResourceName'', JStr (''contactGroups/'' @ b))])]]))
       \<and> (contactGroups opts = None \<or> contactGroups opts = Some [] \<longrightarrow>
            map_of r' ''memberships''
              = Some (JArr
                  [JObj [(''contactGroupMembership'',
                          JObj [(''contactGroupResourceName'', JStr ''contactGroups/myContacts'')])]]))"
proof -
  have m: "map_of r' ''memberships'' = Some (JArr (defaultMembership opts))"
    using assms by (rule processContact_memberships)
  show ?thesis unfolding m defaultMembership_def membership_def by auto
qed

theorem sanitize_memberships_witness:
  "(processContact exampleContact \<lparr>contactGroups = Some [''a'', ''b'']\<rparr> = Inr (sanitizedExample [''a'', ''b''])
    \<and> map_of (sanitizedExample [''a'', ''b'']) ''memberships''
         = Some (JArr
             [JObj [(''contactGroupMembership'',
                     JObj [(''contactGroupResourceName'', JStr ''contactGroups/myContacts'')])],
              JObj [(''contactGroupMembership'',
                     JObj [(''contactGroupResourceName'', JStr ''contactGroups/a'')])],
              JObj [(''contactGroupMembership'',
                     JObj [(''contactGroupResourceName'', JStr ''contactGroups/b'')])]]))
   \<and> (processContact exampleContact \<lparr>contactGroups = None\<rparr> = Inr (sanitizedExample [])
    \<and> map_of (sanitizedExample []) ''memberships''
         = Some (JArr
             [JObj [(''contactGroupMembership'',
                     JObj [(''contactGroupResourceName'', JStr ''contactGroups/myContacts'')])]]))"
proof -
  have h1: "processContact exampleContact \<lparr>contactGroups = Some [''a'', ''b'']\<rparr>
             = Inr (sanitizedExample [''a'', ''b''])"
    by code_simp
  have h2: "processContact exampleContact \<lparr>contactGroups = None\<rparr> = Inr (sanitizedExample [])"
    by code_simp
  from sanitize_memberships[OF h1, of "''a''" "''b''"] sanitize_memberships[OF h2] h1 h2
  show ?thesis by simp
qed

lemma processContact_fixpoint:
  assumes "processContact r opts = Inr r'"
  shows "processContact r' opts = Inr r'"
proof -
  from assms obtain c1 c2 where c: "filterField ''names'' (deleteReadOnly r) = Inr c1"
    "filterField ''emailAddresses'' c1 = Inr c2"
    "cleanFields (setProp ''memberships'' (JArr (defaultMembership opts)) c2) = Inr r'"
    by (rule processContact_Inr)
  let ?c3 = "setProp ''memberships'' (JArr (defaultMembership opts)) c2"
  have "fst ` set r' \<inter> {''metadata'', ''resourceName'', ''etag'', ''photos'', ''coverPhotos''} = {}"
    unfolding processContact_keys[OF assms] by auto
  then have d: "deleteReadOnly r' = r'" by (rule deleteReadOnly_absent)
  have "map_of ?c3 ''names'' = map_of c1 ''names''"
    using filterField_other[OF c(2), of "''names''"] by (simp add: map_of_setProp)
  then have n: "filterField ''names'' r' = Inr r'"
    using filterField_stable[OF c(1) _ c(3)] by simp
  have "map_of ?c3 ''emailAddresses'' = map_of c2 ''emailAddresses''"
    by (simp add: map_of_setProp)
  then have e: "filterField ''emailAddresses'' r' = Inr r'"
    using filterField_stable[OF c(2) _ c(3)] by simp
  have m: "setProp ''memberships'' (JArr (defaultMembership opts)) r' = r'"
    using processContact_memberships[OF assms] by (rule setProp_same)
  have "cleanFields r' = Inr r'" using c(3) by (rule clean_idem(3))
  then show ?thesis unfolding processContact_def by (simp add: d n e m)
qed

text \<open>
  C8. Sanitizing is idempotent: sanitizing the outcome of \<^verbatim>\<open>processContact\<close> again, with the
  same options, gives that outcome. A record that has been returned goes through unchanged,
  and a call that throws leaves nothing to sanitize again.
\<close>

theorem sanitize_idempotent:
  "(case processContact r opts of Inl e \<Rightarrow> Inl e | Inr r' \<Rightarrow> processContact r' opts)
     = processContact r opts"
proof (cases "processContact r opts")
  case (Inl e)
  then show ?thesis by simp
next
  case (Inr r')
  then show ?thesis using processContact_fixpoint[OF Inr] by simp
qed

theorem sanitize_idempotent_witness:
  "processContact exampleContact \<lparr>contactGroups = Some [''a'', ''b'']\<rparr> = Inr (sanitizedExample [''a'', ''b''])
   \<and> processContact (sanitizedExample [''a'', ''b'']) \<lparr>contactGroups = Some [''a'', ''b'']\<rparr>
       = Inr (sanitizedExample [''a'', ''b''])"
proof -
  have h: "processContact exampleContact \<lparr>contactGroups = Some [''a'', ''b'']\<rparr>
             = Inr (sanitizedExample [''a'', ''b''])"
    by code_simp
  from sanitize_idempotent[where r = exampleContact and opts = "\<lparr>contactGroups = Some [''a'', ''b'']\<rparr>"] h
  show ?thesis by simp
qed

section \<open>Properties of the batch writer\<close>

text \<open>
  Whatever the network does, the batches sent are consecutive pieces of the processed
  contacts, in order, and together they are all of them: a rejected request stops nothing.
\<close>

lemma settle_submitted: "submitted (settle w ev) = submitted w"
  unfolding settle_def by (simp split: option.splits outcome.splits)

lemma foldl_settle_submitted: "submitted (foldl settle w evs) = submitted w"
  by (induction evs arbitrary: w) (simp_all add: settle_submitted)

lemma batchLoop_concat_submitted:
  "concat (submitted (batchLoop arrivals pcs i w)) = concat (submitted w) @ drop i pcs"
proof (induction arrivals pcs i w rule: batchLoop.induct)
  case (1 arrivals pcs i w)
  show ?case
  proof (cases "i < length pcs")
    case True
    have "concat (submitted (batchLoop arrivals pcs i w))
        = concat (submitted w) @ slice i (i + BATCH_SIZE) pcs @ drop (i + BATCH_SIZE) pcs"
      using True "1.IH" by (simp add: foldl_settle_submitted submit_def)
    also have "slice i (i + BATCH_SIZE) pcs @ drop (i + BATCH_SIZE) pcs = drop i pcs"
      unfolding slice_def by (simp add: add.commute[of i] flip: drop_drop)
    finally show ?thesis .
  next
    case False
    then show ?thesis by simp
  qed
qed

lemma numbered_sanitized:
  "mapE (\<lambda>contact. processContact contact \<lparr>contactGroups = None\<rparr>) (map numbered ns)
     = Inr (map (\<lambda>n. [(''clientData'', JNum (int n)), (''memberships'', JArr [membership ''myContacts''])]) ns)"
proof (induction ns)
  case Nil then show ?case by simp
next
  case (Cons n ns)
  have "processContact (numbered n) \<lparr>contactGroups = None\<rparr>
          = Inr [(''clientData'', JNum (int n)), (''memberships'', JArr [membership ''myContacts''])]"
    unfolding processContact_def numbered_def deleteReadOnly_def deleteProp_def filterField_def
      defaultMembership_def membership_def
    by simp
  with Cons show ?case by simp
qed

text \<open>
  When every answer arrives during the wait that follows its request, the function returns
  what C1 describes: three batches of 25, 25 and 3 sent, the second one in \<^verbatim>\<open>failed\<close>, the
  answers to the other two in \<^verbatim>\<open>results\<close>, nothing pending.
\<close>

lemma batches_on_time:
  "batchCreateContacts punctual (map numbered [0..<53]) \<lparr>contactGroups = None\<rparr> =
   Inr \<lparr>results = [JStr ''created 25'', JStr ''created 3''],
        failed = [map sanitizedNumbered [25..<50]],
        progress = 53,
        submitted = [map sanitizedNumbered [0..<25], map sanitizedNumbered [25..<50],
                     map sanitizedNumbered [50..<53]],
        pending = []\<rparr>"
  by code_simp

text \<open>
  C1 fails on the code. For 53 records the three batches of 25, 25 and 3 are sent in input
  order and the rejected second batch is in \<^verbatim>\<open>failed\<close>, but the function does not wait for
  the third request: when its answer takes longer than the last five-second wait, the
  function returns with that request still pending and \<^verbatim>\<open>results\<close> holding the answer to the
  first batch only.
\<close>

theorem batches_unfinished_at_return:
  "batchCreateContacts lateThird (map numbered [0..<53]) \<lparr>contactGroups = None\<rparr> =
   Inr \<lparr>results = [JStr ''created 25''],
        failed = [map sanitizedNumbered [25..<50]],
        progress = 53,
        submitted = [map sanitizedNumbered [0..<25], map sanitizedNumbered [25..<50],
                     map sanitizedNumbered [50..<53]],
        pending = [(50, map sanitizedNumbered [50..<53])]\<rparr>"
  by code_simp

text \<open>
  C2 fails on the code. The wait starts as soon as the request has been sent, not when it has
  settled: with one record and a network that has not answered when the timer ends, the
  function returns while the only batch is pending, recorded neither in \<^verbatim>\<open>results\<close> nor in
  \<^verbatim>\<open>failed\<close>.
\<close>

theorem wait_does_not_follow_completion:
  "batchCreateContacts (\<lambda>i. []) [numbered 0] \<lparr>contactGroups = None\<rparr> =
   Inr \<lparr>results = [], failed = [], progress = 1,
        submitted = [[sanitizedNumbered 0]], pending = [(0, [sanitizedNumbered 0])]\<rparr>"
  by code_simp

section \<open>Properties of the fetchers\<close>

text \<open>
  \<^verbatim>\<open>listContacts\<close> follows the page tokens to the end: when the remote side serves the pages
  \<open>ps\<close>, the call returns, and returns the items of all of them in order.
\<close>

lemma listContacts_loop_serves:
  "serves connections_list tok ps \<Longrightarrow>
     listContacts_loop connections_list acc tok = Some (Inr (acc @ map items ps))"
proof (induction connections_list tok ps arbitrary: acc rule: serves.induct)
  case (1 connections_list tok)
  then show ?case by simp
next
  case (2 connections_list tok p)
  then show ?case by (subst listContacts_loop.simps) simp
next
  case (3 connections_list tok p q ps)
  then show ?case by (subst listContacts_loop.simps) simp
qed

lemma listContacts_all_pages:
  assumes "serves connections_list None ps"
  shows "listContacts connections_list = Some (Inr (flat (map items ps)))"
  unfolding listContacts_def listContacts_loop_serves[OF assms] by simp

lemma threePages_serves:
  "serves threePages None
     [\<lparr>items = Some [JNum 1, JNum 2], nextPageToken = Some ''t1''\<rparr>,
      \<lparr>items = Some [JNum 3, JNum 4], nextPageToken = Some ''t2''\<rparr>,
      \<lparr>items = Some [JNum 5], nextPageToken = Some []\<rparr>]"
  by (simp add: threePages_def truthyToken_def)

lemma listContacts_threePages:
  "listContacts threePages = Some (Inr (map Some [JNum 1, JNum 2, JNum 3, JNum 4, JNum 5]))"
  using listContacts_all_pages[OF threePages_serves] by simp

text \<open>
  C3 fails on the code for contact groups. \<^verbatim>\<open>listContactGroups\<close> sends one request and
  returns its answer: for an account with 201 groups that is the first 200 and a page
  token that is never used.
\<close>

theorem listContactGroups_first_page_only:
  "listContactGroups (account (map group [0..<201]))
     = Inr \<lparr>items = Some (map group [0..<200]), nextPageToken = Some (replicate 200 (CHR ''x''))\<rparr>"
  unfolding listContactGroups_def account_def by (simp add: take_map)

section \<open>Properties of the import command\<close>

lemma limitContacts_flag: "limitContacts opts contacts = (if limit opts then take 1 contacts else contacts)"
  unfolding limitContacts_def slice_def toInteger_def by simp

text \<open>
  C9 fails on the code. \<^verbatim>\<open>--limit\<close> is declared without a value, so \<^verbatim>\<open>--limit 10\<close> sets the flag
  and leaves \<^verbatim>\<open>10\<close> as an operand; \<^verbatim>\<open>contacts.slice(0, true)\<close> then keeps one record of the
  53 in the file, not ten. Without the flag all records are kept.
\<close>

theorem limit_flag_keeps_one:
  "parseImport [''-d'', ''ann@example.org'', ''-f'', ''contacts.json'', ''--limit'', ''10'']
       (noOptions, [])
     = Inr (noOptions\<lparr>destination := Some ''ann@example.org'', file_opt := Some ''contacts.json'',
                       limit := True\<rparr>, [''10''])
   \<and> limitContacts
         (noOptions\<lparr>destination := Some ''ann@example.org'', file_opt := Some ''contacts.json'',
                    limit := True\<rparr>)
         (map numbered [0..<53])
       = [numbered 0]
   \<and> limitContacts
         (noOptions\<lparr>destination := Some ''ann@example.org'', file_opt := Some ''contacts.json''\<rparr>)
         (map numbered [0..<53])
       = map numbered [0..<53]"
  by code_simp

section \<open>Properties of authorize\<close>

text \<open>
  C10. \<^verbatim>\<open>authorize\<close> goes to the interactive flow \<^verbatim>\<open>getAccessToken\<close> when reading the token
  file fails with the code \<^verbatim>\<open>ENOENT\<close>, and only then: any other error of the read, and the
  SyntaxError of a token file that does not parse, is thrown again to the caller.
\<close>

theorem authorize_fallback:
  "(readFileSync env (getTokenPath env accountEmail) = Inl (SystemError ''ENOENT'') \<longrightarrow>
      authorize env accountEmail = FromGetAccessToken (getAccessToken env accountEmail))
   \<and> (\<forall>e. readFileSync env (getTokenPath env accountEmail) = Inl e \<and> e \<noteq> SystemError ''ENOENT'' \<longrightarrow>
          authorize env accountEmail = Rethrown e)
   \<and> (\<forall>text. readFileSync env (getTokenPath env accountEmail) = Inr text \<and> JSON_parse env text = None \<longrightarrow>
          authorize env accountEmail = Rethrown SyntaxError)
   \<and> ((\<exists>x. authorize env accountEmail = FromGetAccessToken x) \<longrightarrow>
          readFileSync env (getTokenPath env accountEmail) = Inl (SystemError ''ENOENT''))"
proof -
  have code: "error_code e = Some ''ENOENT'' \<longleftrightarrow> e = SystemError ''ENOENT''" for e
    by (cases e) simp_all
  show ?thesis
    unfolding authorize_def by (simp add: code split: sum.splits option.splits)
qed

theorem authorize_fallback_witness:
  "(readFileSync (exampleEnv (\<lambda>p. Inl (SystemError ''ENOENT''))) (getTokenPath (exampleEnv (\<lambda>p. Inl (SystemError ''ENOENT''))) ''ann@example.org'')
       = Inl (SystemError ''ENOENT'')
    \<and> authorize (exampleEnv (\<lambda>p. Inl (SystemError ''ENOENT''))) ''ann@example.org''
       = FromGetAccessToken (Inl TransportError))
   \<and> (readFileSync (exampleEnv (\<lambda>p. Inl (SystemError ''EACCES''))) (getTokenPath (exampleEnv (\<lambda>p. Inl (SystemError ''EACCES''))) ''ann@example.org'')
       = Inl (SystemError ''EACCES'')
    \<and> SystemError ''EACCES'' \<noteq> SystemError ''ENOENT''
    \<and> authorize (exampleEnv (\<lambda>p. Inl (SystemError ''EACCES''))) ''ann@example.org''
       = Rethrown (SystemError ''EACCES''))
   \<and> (readFileSync (exampleEnv (\<lambda>p. Inr ''<html>'')) (getTokenPath (exampleEnv (\<lambda>p. Inr ''<html>'')) ''ann@example.org'')
       = Inr ''<html>''
    \<and> JSON_parse (exampleEnv (\<lambda>p. Inr ''<html>'')) ''<html>'' = None
    \<and> authorize (exampleEnv (\<lambda>p. Inr ''<html>'')) ''ann@example.org'' = Rethrown SyntaxError)"
proof -
  have a: "readFileSync (exampleEnv (\<lambda>p. Inl (SystemError ''ENOENT''))) (getTokenPath (exampleEnv (\<lambda>p. Inl (SystemError ''ENOENT''))) ''ann@example.org'')
       = Inl (SystemError ''ENOENT'')"
    by (simp add: exampleEnv_def)
  have b: "readFileSync (exampleEnv (\<lambda>p. Inl (SystemError ''EACCES''))) (getTokenPath (exampleEnv (\<lambda>p. Inl (SystemError ''EACCES''))) ''ann@example.org'')
       = Inl (SystemError ''EACCES'') \<and> SystemError ''EACCES'' \<noteq> SystemError ''ENOENT''"
    by (simp add: exampleEnv_def)
  have c: "readFileSync (exampleEnv (\<lambda>p. Inr ''<html>'')) (getTokenPath (exampleEnv (\<lambda>p. Inr ''<html>'')) ''ann@example.org'')
       = Inr ''<html>''
    \<and> JSON_parse (exampleEnv (\<lambda>p. Inr ''<html>'')) ''<html>'' = None"
    by (simp add: exampleEnv_def)
  have g: "getAccessToken (exampleEnv (\<lambda>p. Inl (SystemError ''ENOENT''))) ''ann@example.org'' = Inl TransportError"
    by (simp add: exampleEnv_def)
  from authorize_fallback[of "exampleEnv (\<lambda>p. Inl (SystemError ''ENOENT''))" "''ann@example.org''"]
       authorize_fallback[of "exampleEnv (\<lambda>p. Inl (SystemError ''EACCES''))" "''ann@example.org''"]
       authorize_fallback[of "exampleEnv (\<lambda>p. Inr ''<html>'')" "''ann@example.org''"]
       a b c g
  show ?thesis by metis
qed

end
